theory Spec2Isabelle
  imports Main "HOL-Library.Word"
begin

section \<open>Data model of keychain.go\<close>

text \<open>
  \<open>ids.ShortID\<close> is a 20-byte array used only as a comparable map key; it is a list of
  bytes here. A Go \<open>[]byte\<close> is a list of bytes (a nil slice is the empty list), a
  \<open>uint32\<close> index a 32-bit word.
\<close>

type_synonym uint32 = "32 word"
type_synonym bytes = "8 word list"
type_synonym ShortID = "8 word list"

text \<open>
  Go's \<open>error\<close> is an interface: a value of it is one of the four variables the package
  exports (lines 15-20) or any other error, which a device may produce.
\<close>

datatype error =
    ErrInvalidIndicesLength
  | ErrInvalidNumAddrsToDerive
  | ErrInvalidNumAddrsDerived
  | ErrInvalidNumSignatures
  | OtherError string

text \<open>
  The \<open>Ledger\<close> interface (lines 41-48). A device has a state of its own, of type \<open>'d\<close>;
  each method reads and updates it and returns Go's pair of a value and an error
  (\<open>None\<close> is the nil error). A device is taken to return from every call and not to
  write to the slices it is given. A value of this type is always a device: Go's nil
  interface, on which the method call of line 75 panics, is not among them, so
  nothing here says what the package does when it is handed no device.
\<close>

record 'd Ledger =
  Address :: "string \<Rightarrow> uint32 \<Rightarrow> 'd \<Rightarrow> (ShortID \<times> error option) \<times> 'd"
  SignHash :: "bytes \<Rightarrow> uint32 \<Rightarrow> 'd \<Rightarrow> (bytes \<times> error option) \<times> 'd"
  Sign :: "bytes \<Rightarrow> uint32 \<Rightarrow> 'd \<Rightarrow> (bytes \<times> error option) \<times> 'd"
  SignTransaction :: "bytes \<Rightarrow> uint32 list \<Rightarrow> 'd \<Rightarrow> (bytes list \<times> error option) \<times> 'd"
  GetAddresses :: "uint32 list \<Rightarrow> 'd \<Rightarrow> (ShortID list \<times> error option) \<times> 'd"
  Disconnect :: "'d \<Rightarrow> error option \<times> 'd"

text \<open>
  The world the package runs in: the state of the device and the sequence of method
  calls made on the \<open>Ledger\<close> interface so far, oldest first.
\<close>

datatype call =
    CallAddress string uint32
  | CallSignHash bytes uint32
  | CallSign bytes uint32
  | CallSignTransaction bytes "uint32 list"
  | CallGetAddresses "uint32 list"
  | CallDisconnect

record 'd world =
  dev :: 'd
  calls :: "call list"

text \<open>The structs \<open>ledgerKeychain\<close> (lines 52-56) and \<open>ledgerSigner\<close> (lines 60-64).\<close>

record 'd ledgerKeychain =
  ledger :: "'d Ledger"
  addrs :: "ShortID set"
  addrToIdx :: "ShortID \<rightharpoonup> uint32"

record 'd ledgerSigner =
  signer_ledger :: "'d Ledger"
  idx :: uint32
  addr :: ShortID

text \<open>
  What a call of the constructor on a device does: it returns a value, returns an
  error, or panics (an index out of range in \<open>indices[i]\<close>; the panic of a method call
  on a nil \<open>Ledger\<close> is outside the model).
\<close>

datatype 'a outcome = Value 'a | Error error | Panic

section \<open>Calls on the device\<close>

text \<open>
  \<open>l.ledger.GetAddresses(indices)\<close>, \<open>l.ledger.SignHash(hash, idx)\<close> and
  \<open>l.ledger.Sign(hash, idx)\<close>: the method runs on the device state and the call is
  recorded.
\<close>

definition call_GetAddresses ::
  "'d Ledger \<Rightarrow> uint32 list \<Rightarrow> 'd world \<Rightarrow> (ShortID list \<times> error option) \<times> 'd world" where
  "call_GetAddresses L indices w =
     (case GetAddresses L indices (dev w) of
        (r, d') \<Rightarrow> (r, \<lparr>dev = d', calls = calls w @ [CallGetAddresses indices]\<rparr>))"

definition call_SignHash ::
  "'d Ledger \<Rightarrow> bytes \<Rightarrow> uint32 \<Rightarrow> 'd world \<Rightarrow> (bytes \<times> error option) \<times> 'd world" where
  "call_SignHash L hash i w =
     (case SignHash L hash i (dev w) of
        (r, d') \<Rightarrow> (r, \<lparr>dev = d', calls = calls w @ [CallSignHash hash i]\<rparr>))"

definition call_Sign ::
  "'d Ledger \<Rightarrow> bytes \<Rightarrow> uint32 \<Rightarrow> 'd world \<Rightarrow> (bytes \<times> error option) \<times> 'd world" where
  "call_Sign L hash i w =
     (case Sign L hash i (dev w) of
        (r, d') \<Rightarrow> (r, \<lparr>dev = d', calls = calls w @ [CallSign hash i]\<rparr>))"

section \<open>NewLedgerKeychain\<close>

text \<open>
  The loop of lines 86-89, \<open>for i, addr := range addresses\<close>, from position \<open>i\<close> on the
  addresses still to visit: \<open>addrToIdx[addr] = indices[i]\<close>, then \<open>addrs.Add(addr)\<close>.
  \<open>None\<close> is the panic of \<open>indices[i]\<close> out of range.
\<close>

fun derive_loop ::
  "nat \<Rightarrow> ShortID list \<Rightarrow> uint32 list \<Rightarrow> (ShortID \<rightharpoonup> uint32) \<times> ShortID set
     \<Rightarrow> ((ShortID \<rightharpoonup> uint32) \<times> ShortID set) option" where
  "derive_loop i [] indices st = Some st"
| "derive_loop i (a # rest) indices (m, s) =
     (if i < length indices
      then derive_loop (Suc i) rest indices (m(a \<mapsto> indices ! i), insert a s)
      else None)"

definition NewLedgerKeychain ::
  "'d Ledger \<Rightarrow> uint32 list \<Rightarrow> 'd world \<Rightarrow> 'd ledgerKeychain outcome \<times> 'd world" where
  "NewLedgerKeychain L indices w =
     (if length indices = 0 then (Error ErrInvalidIndicesLength, w)
      else case call_GetAddresses L indices w of
        ((addresses, err), w') \<Rightarrow>
          (case err of
             Some e \<Rightarrow> (Error e, w')
           | None \<Rightarrow>
               if length addresses \<noteq> length indices
               then (Error ErrInvalidNumAddrsDerived, w')
               else (case derive_loop 0 addresses indices (Map.empty, {}) of
                       None \<Rightarrow> (Panic, w')
                     | Some (m, s) \<Rightarrow>
                         (Value \<lparr>ledger = L, addrs = s, addrToIdx = m\<rparr>, w'))))"

section \<open>Methods of ledgerKeychain and ledgerSigner\<close>

text \<open>
  \<open>Get\<close> (lines 98-108) returns Go's pair of a signer and a flag: \<open>(nil, false)\<close> is
  \<open>(None, False)\<close>. None of \<open>Get\<close>, \<open>Addresses\<close> and \<open>Address\<close> calls the device.
\<close>

definition ledgerKeychain_Get ::
  "'d ledgerKeychain \<Rightarrow> ShortID \<Rightarrow> 'd world \<Rightarrow> ('d ledgerSigner option \<times> bool) \<times> 'd world" where
  "ledgerKeychain_Get l a w =
     (case addrToIdx l a of
        None \<Rightarrow> ((None, False), w)
      | Some i \<Rightarrow> ((Some \<lparr>signer_ledger = ledger l, idx = i, addr = a\<rparr>, True), w))"

definition ledgerKeychain_Addresses :: "'d ledgerKeychain \<Rightarrow> 'd world \<Rightarrow> ShortID set \<times> 'd world" where
  "ledgerKeychain_Addresses l w = (addrs l, w)"

definition ledgerSigner_SignHash ::
  "'d ledgerSigner \<Rightarrow> bytes \<Rightarrow> 'd world \<Rightarrow> (bytes \<times> error option) \<times> 'd world" where
  "ledgerSigner_SignHash l hash w = call_SignHash (signer_ledger l) hash (idx l) w"

definition ledgerSigner_Sign ::
  "'d ledgerSigner \<Rightarrow> bytes \<Rightarrow> 'd world \<Rightarrow> (bytes \<times> error option) \<times> 'd world" where
  "ledgerSigner_Sign l hash w = call_Sign (signer_ledger l) hash (idx l) w"

definition ledgerSigner_Address :: "'d ledgerSigner \<Rightarrow> 'd world \<Rightarrow> ShortID \<times> 'd world" where
  "ledgerSigner_Address l w = (addr l, w)"

section \<open>The test double of keychain_test.go\<close>

text \<open>
  \<open>mockLedger\<close> (lines 14-65 of the test file) keeps a map from index to address.
  \<open>Address\<close> returns the stored address, or stores and returns the zero address with
  its first byte set to \<open>byte(addressIndex)\<close>.
\<close>

definition mock_Address ::
  "string \<Rightarrow> uint32 \<Rightarrow> (uint32 \<rightharpoonup> ShortID) \<Rightarrow> (ShortID \<times> error option) \<times> (uint32 \<rightharpoonup> ShortID)" where
  "mock_Address hrp i m =
     (case m i of
        Some a \<Rightarrow> ((a, None), m)
      | None \<Rightarrow> (let a = (replicate 20 0)[0 := ucast i] in ((a, None), m(i \<mapsto> a))))"

text \<open>
  The loop of \<open>mockLedger.GetAddresses\<close>; \<open>out\<close> is the slice allocated with one slot
  for each index, so the write \<open>addrs[i] = addr\<close> is always in range.
\<close>

fun mock_GetAddresses_loop ::
  "nat \<Rightarrow> uint32 list \<Rightarrow> ShortID list \<Rightarrow> (uint32 \<rightharpoonup> ShortID)
     \<Rightarrow> (ShortID list \<times> error option) \<times> (uint32 \<rightharpoonup> ShortID)" where
  "mock_GetAddresses_loop i [] out m = ((out, None), m)"
| "mock_GetAddresses_loop i (x # rest) out m =
     (case mock_Address [] x m of
        ((a, Some e), m') \<Rightarrow> (([], Some e), m')
      | ((a, None), m') \<Rightarrow> mock_GetAddresses_loop (Suc i) rest (out[i := a]) m')"

definition mock_GetAddresses ::
  "uint32 list \<Rightarrow> (uint32 \<rightharpoonup> ShortID) \<Rightarrow> (ShortID list \<times> error option) \<times> (uint32 \<rightharpoonup> ShortID)" where
  "mock_GetAddresses addressIndices m =
     mock_GetAddresses_loop 0 addressIndices (replicate (length addressIndices) (replicate 20 0)) m"

definition mockLedger :: "(uint32 \<rightharpoonup> ShortID) Ledger" where
  "mockLedger =
     \<lparr>Address = mock_Address,
      SignHash = (\<lambda>h i m. ((map (of_nat \<circ> of_char) ''mock-hash-signature'', None), m)),
      Sign = (\<lambda>h i m. ((map (of_nat \<circ> of_char) ''mock-signature'', None), m)),
      SignTransaction =
        (\<lambda>h is m. ((map (\<lambda>_. map (of_nat \<circ> of_char) ''mock-tx-signature'') is, None), m)),
      GetAddresses = mock_GetAddresses,
      Disconnect = (\<lambda>m. (None, m))\<rparr>"

definition newMockLedger :: "(uint32 \<rightharpoonup> ShortID) world" where
  "newMockLedger = \<lparr>dev = Map.empty, calls = []\<rparr>"

text \<open>
  A device without state that answers every call with fixed results, for the
  failures the test double above never produces.
\<close>

definition fixedLedger :: "ShortID list \<times> error option \<Rightarrow> bytes \<times> error option \<Rightarrow> unit Ledger" where
  "fixedLedger ra rs =
     \<lparr>Address = (\<lambda>h i d. ((replicate 20 0, snd ra), d)),
      SignHash = (\<lambda>h i d. (rs, d)),
      Sign = (\<lambda>h i d. (rs, d)),
      SignTransaction = (\<lambda>h is d. (([], snd rs), d)),
      GetAddresses = (\<lambda>is d. (ra, d)),
      Disconnect = (\<lambda>d. (None, d))\<rparr>"

section \<open>The pairing in the words of the specification\<close>

text \<open>
  The specification describes the map as built by going through the returned addresses
  in order, each paired with the index at the same position, a later pair replacing an
  earlier one for the same address.
\<close>

definition pair_in_order :: "ShortID list \<Rightarrow> uint32 list \<Rightarrow> (ShortID \<rightharpoonup> uint32)" where
  "pair_in_order addresses indices =
     fold (\<lambda>(a, i) m. m(a \<mapsto> i)) (zip addresses indices) Map.empty"

section \<open>What the loop computes\<close>

text \<open>
  When every position it visits is within \<open>indices\<close>, the loop does not panic: it adds
  the pairs of addresses and indices to the map, a later pair replacing an earlier one
  with the same address, and the addresses to the set.
\<close>

lemma derive_loop_in_range:
  "i + length addresses \<le> length indices \<Longrightarrow>
   derive_loop i addresses indices (m, s) =
     Some (m ++ map_of (rev (zip addresses (drop i indices))), s \<union> set addresses)"
proof (induction addresses arbitrary: i m s)
  case Nil
  then show ?case by simp
next
  case (Cons a rest)
  then have i: "i < length indices" by simp
  then have d: "drop i indices = indices ! i # drop (Suc i) indices"
    by (simp add: Cons_nth_drop_Suc)
  from Cons.prems have "Suc i + length rest \<le> length indices" by simp
  from Cons.IH [OF this] i show ?case
    by (auto simp: d map_add_def fun_eq_iff split: option.splits)
qed

lemma dom_pairing:
  "length as = length is \<Longrightarrow> dom (map_of (rev (zip as is))) = set as"
  by (simp add: dom_map_of_conv_image_fst flip: set_map)

lemma pairing_origin:
  assumes "map_of (rev (zip as is)) a = Some x"
  shows "\<exists>k<length as. k < length is \<and> as ! k = a \<and> is ! k = x"
proof -
  from assms have "(a, x) \<in> set (zip as is)"
    by (auto dest: map_of_SomeD)
  then show ?thesis
    by (auto simp: in_set_zip)
qed

lemma pairing_last_wins:
  "length as = length is \<Longrightarrow> k < length as \<Longrightarrow>
   (\<And>j. k < j \<Longrightarrow> j < length as \<Longrightarrow> as ! j \<noteq> as ! k) \<Longrightarrow>
   map_of (rev (zip as is)) (as ! k) = Some (is ! k)"
proof (induction as "is" arbitrary: k rule: list_induct2)
  case Nil
  then show ?case by simp
next
  case (Cons a as i "is")
  show ?case
  proof (cases k)
    case 0
    have "a \<notin> set as"
    proof
      assume "a \<in> set as"
      then obtain j where "j < length as" "as ! j = a"
        by (auto simp: in_set_conv_nth)
      with Cons.prems(2) [of "Suc j"] 0 show False by simp
    qed
    then have "map_of (rev (zip as is)) a = None"
      using Cons.hyps by (simp add: map_of_eq_None_iff flip: set_map)
    with 0 show ?thesis
      by (simp add: map_add_def)
  next
    case (Suc k')
    with Cons.prems have k': "k' < length as" by simp
    have "\<And>j. k' < j \<Longrightarrow> j < length as \<Longrightarrow> as ! j \<noteq> as ! k'"
      using Cons.prems(2) [of "Suc j" for j] Suc by simp
    from Cons.IH [OF k' this] Suc show ?thesis
      by (simp add: map_add_def)
  qed
qed

lemma fold_pairs: "fold (\<lambda>(a, i) m. m(a \<mapsto> i)) ps m = m ++ map_of (rev ps)"
  by (induction ps arbitrary: m) (auto simp: map_add_def fun_eq_iff split: option.splits)

section \<open>The outcomes of NewLedgerKeychain\<close>

lemma NewLedgerKeychain_Value:
  assumes "indices \<noteq> []"
    and "fst (GetAddresses L indices (dev w)) = (addresses, None)"
    and "length addresses = length indices"
  shows "NewLedgerKeychain L indices w =
    (Value \<lparr>ledger = L, addrs = set addresses,
            addrToIdx = map_of (rev (zip addresses indices))\<rparr>,
     \<lparr>dev = snd (GetAddresses L indices (dev w)),
      calls = calls w @ [CallGetAddresses indices]\<rparr>)"
proof -
  have "derive_loop 0 addresses indices (Map.empty, {}) =
      Some (map_of (rev (zip addresses indices)), set addresses)"
    using derive_loop_in_range [of 0 addresses indices Map.empty "{}"] assms(3) by simp
  moreover obtain d' where "GetAddresses L indices (dev w) = ((addresses, None), d')"
    using assms(2) by (cases "GetAddresses L indices (dev w)") simp
  ultimately show ?thesis
    using assms(1,3) by (simp add: NewLedgerKeychain_def call_GetAddresses_def)
qed

lemma NewLedgerKeychain_count:
  assumes "indices \<noteq> []"
    and "fst (GetAddresses L indices (dev w)) = (addresses, None)"
    and "length addresses \<noteq> length indices"
  shows "NewLedgerKeychain L indices w =
    (Error ErrInvalidNumAddrsDerived,
     \<lparr>dev = snd (GetAddresses L indices (dev w)),
      calls = calls w @ [CallGetAddresses indices]\<rparr>)"
proof -
  obtain d' where "GetAddresses L indices (dev w) = ((addresses, None), d')"
    using assms(2) by (cases "GetAddresses L indices (dev w)") simp
  then show ?thesis
    using assms(1,3) by (simp add: NewLedgerKeychain_def call_GetAddresses_def)
qed

lemma NewLedgerKeychain_device_error:
  assumes "indices \<noteq> []"
    and "fst (GetAddresses L indices (dev w)) = (addresses, Some e)"
  shows "NewLedgerKeychain L indices w =
    (Error e,
     \<lparr>dev = snd (GetAddresses L indices (dev w)),
      calls = calls w @ [CallGetAddresses indices]\<rparr>)"
proof -
  obtain d' where "GetAddresses L indices (dev w) = ((addresses, Some e), d')"
    using assms(2) by (cases "GetAddresses L indices (dev w)") simp
  then show ?thesis
    using assms(1) by (simp add: NewLedgerKeychain_def call_GetAddresses_def)
qed

text \<open>
  The four cases of the constructor, by what the device answers. They are exhaustive.
\<close>

lemma NewLedgerKeychain_cases:
  obtains
    (empty) "indices = []"
      "NewLedgerKeychain L indices w = (Error ErrInvalidIndicesLength, w)"
  | (device) addresses e where "indices \<noteq> []"
      "fst (GetAddresses L indices (dev w)) = (addresses, Some e)"
      "fst (NewLedgerKeychain L indices w) = Error e"
  | (count) addresses where "indices \<noteq> []"
      "fst (GetAddresses L indices (dev w)) = (addresses, None)"
      "length addresses \<noteq> length indices"
      "fst (NewLedgerKeychain L indices w) = Error ErrInvalidNumAddrsDerived"
  | (built) addresses where "indices \<noteq> []"
      "fst (GetAddresses L indices (dev w)) = (addresses, None)"
      "length addresses = length indices"
      "fst (NewLedgerKeychain L indices w) =
         Value \<lparr>ledger = L, addrs = set addresses,
                addrToIdx = map_of (rev (zip addresses indices))\<rparr>"
proof (cases "indices = []")
  case True
  then show ?thesis
    using empty by (simp add: NewLedgerKeychain_def)
next
  case ne: False
  obtain addresses err where g: "fst (GetAddresses L indices (dev w)) = (addresses, err)"
    by (cases "fst (GetAddresses L indices (dev w))")
  show ?thesis
  proof (cases err)
    case (Some e)
    with ne g NewLedgerKeychain_device_error [of indices L w addresses e] device
    show ?thesis by simp
  next
    case None
    show ?thesis
    proof (cases "length addresses = length indices")
      case True
      with ne g None NewLedgerKeychain_Value [of indices L w addresses] built
      show ?thesis by simp
    next
      case False
      with ne g None NewLedgerKeychain_count [of indices L w addresses] count
      show ?thesis by simp
    qed
  qed
qed

text \<open>A keychain that was returned comes from the last of the four cases.\<close>

lemma NewLedgerKeychain_ValueD:
  assumes "fst (NewLedgerKeychain L indices w) = Value kc"
  obtains addresses where "indices \<noteq> []"
    "fst (GetAddresses L indices (dev w)) = (addresses, None)"
    "length addresses = length indices"
    "kc = \<lparr>ledger = L, addrs = set addresses,
           addrToIdx = map_of (rev (zip addresses indices))\<rparr>"
  using assms
  by (cases rule: NewLedgerKeychain_cases [where indices = indices and L = L and w = w]) auto

section \<open>The test double, evaluated\<close>

lemma zero_address_update: "(replicate 20 x)[0 := y] = y # replicate 19 x"
  by (simp add: numeral_eq_Suc)

lemma mock_GetAddresses_012:
  "fst (GetAddresses mockLedger [0, 1, 2] (dev newMockLedger)) =
     ([0 # replicate 19 0, 1 # replicate 19 0, 2 # replicate 19 0], None)"
  by (simp add: mockLedger_def newMockLedger_def mock_GetAddresses_def mock_Address_def Let_def
      zero_address_update)

lemma mock_GetAddresses_0_256:
  "fst (GetAddresses mockLedger [0, 256] (dev newMockLedger)) =
     ([0 # replicate 19 0, 0 # replicate 19 0], None)"
  by (simp add: mockLedger_def newMockLedger_def mock_GetAddresses_def mock_Address_def Let_def
      zero_address_update)

lemma mock_GetAddresses_01:
  "fst (GetAddresses mockLedger [0, 1] (dev newMockLedger)) =
     ([0 # replicate 19 0, 1 # replicate 19 0], None)"
  by (simp add: mockLedger_def newMockLedger_def mock_GetAddresses_def mock_Address_def Let_def
      zero_address_update)

lemma mock_keychain_012:
  "fst (NewLedgerKeychain mockLedger [0, 1, 2] newMockLedger) =
     Value \<lparr>ledger = mockLedger,
            addrs = set [0 # replicate 19 0, 1 # replicate 19 0, 2 # replicate 19 0],
            addrToIdx = map_of (rev (zip [0 # replicate 19 0, 1 # replicate 19 0, 2 # replicate 19 0]
                                         [0, 1, 2]))\<rparr>"
  using NewLedgerKeychain_Value [OF _ mock_GetAddresses_012] by simp

lemma mock_keychain_0_256:
  "fst (NewLedgerKeychain mockLedger [0, 256] newMockLedger) =
     Value \<lparr>ledger = mockLedger,
            addrs = set [0 # replicate 19 0, 0 # replicate 19 0],
            addrToIdx = map_of (rev (zip [0 # replicate 19 0, 0 # replicate 19 0] [0, 256]))\<rparr>"
  using NewLedgerKeychain_Value [OF _ mock_GetAddresses_0_256] by simp

section \<open>A keychain that was built\<close>

text \<open>
  C1. For a non-empty index list for which the device returns, without error, one
  address for each index, all distinct, construction returns a keychain; and for every
  address in the set that \<open>Addresses\<close> returns, \<open>Get\<close> returns \<open>true\<close> and a signer
  whose \<open>Address\<close> is the address asked for. (The proof does not need the addresses to
  be distinct.)
\<close>

theorem get_every_address:
  assumes "indices \<noteq> []"
    and "fst (GetAddresses L indices (dev w)) = (addresses, None)"
    and "length addresses = length indices"
    and "distinct addresses"
  shows "\<exists>kc w'. NewLedgerKeychain L indices w = (Value kc, w')
    \<and> (\<forall>a w1. a \<in> fst (ledgerKeychain_Addresses kc w1) \<longrightarrow>
          (\<exists>s. ledgerKeychain_Get kc a w1 = ((Some s, True), w1)
             \<and> fst (ledgerSigner_Address s w1) = a))"
proof -
  let ?kc = "\<lparr>ledger = L, addrs = set addresses,
              addrToIdx = map_of (rev (zip addresses indices))\<rparr>"
  have "\<exists>s. ledgerKeychain_Get ?kc a w1 = ((Some s, True), w1)
          \<and> fst (ledgerSigner_Address s w1) = a"
    if "a \<in> fst (ledgerKeychain_Addresses ?kc w1)" for a w1
  proof -
    from that have "a \<in> dom (map_of (rev (zip addresses indices)))"
      using assms(3) by (simp add: ledgerKeychain_Addresses_def dom_pairing)
    then obtain i where "map_of (rev (zip addresses indices)) a = Some i"
      by blast
    then show ?thesis
      by (simp add: ledgerKeychain_Get_def ledgerSigner_Address_def)
  qed
  with NewLedgerKeychain_Value [OF assms(1-3)] show ?thesis
    by blast
qed

theorem get_every_address_witness:
  "\<exists>kc w'. NewLedgerKeychain mockLedger [0, 1, 2] newMockLedger = (Value kc, w')
    \<and> addrs kc = {0 # replicate 19 0, 1 # replicate 19 0, 2 # replicate 19 0}
    \<and> (\<exists>s. ledgerKeychain_Get kc (1 # replicate 19 0) w' = ((Some s, True), w')
          \<and> fst (ledgerSigner_Address s w') = 1 # replicate 19 0)"
proof -
  have d: "distinct [0 # replicate 19 0, 1 # replicate 19 0, 2 # replicate 19 (0::8 word)]"
    by simp
  obtain kc w' where k: "NewLedgerKeychain mockLedger [0, 1, 2] newMockLedger = (Value kc, w')"
    and g: "\<forall>a w1. a \<in> fst (ledgerKeychain_Addresses kc w1) \<longrightarrow>
          (\<exists>s. ledgerKeychain_Get kc a w1 = ((Some s, True), w1)
             \<and> fst (ledgerSigner_Address s w1) = a)"
    using get_every_address [OF _ mock_GetAddresses_012 _ d] by auto
  from k NewLedgerKeychain_Value [OF _ mock_GetAddresses_012]
  have a: "addrs kc = {0 # replicate 19 0, 1 # replicate 19 0, 2 # replicate 19 0}"
    by auto
  then have "1 # replicate 19 0 \<in> fst (ledgerKeychain_Addresses kc w')"
    by (simp add: ledgerKeychain_Addresses_def)
  with g k a show ?thesis
    by blast
qed

text \<open>
  C2. On success the map from address to index is the pairing of the returned
  addresses, in order, each with the index at its position. When several indices give
  the same address the last of them stays: for the last position \<open>k\<close> at which an
  address occurs, \<open>Get\<close> on that address returns a signer bound to \<open>indices ! k\<close>.
\<close>

theorem collision_last_index_wins:
  assumes "indices \<noteq> []"
    and "fst (GetAddresses L indices (dev w)) = (addresses, None)"
    and "length addresses = length indices"
  shows "\<exists>kc w'. NewLedgerKeychain L indices w = (Value kc, w')
    \<and> addrToIdx kc = pair_in_order addresses indices
    \<and> (\<forall>k w1. k < length addresses
           \<and> (\<forall>j. k < j \<and> j < length addresses \<longrightarrow> addresses ! j \<noteq> addresses ! k) \<longrightarrow>
          ledgerKeychain_Get kc (addresses ! k) w1 =
            ((Some \<lparr>signer_ledger = L, idx = indices ! k, addr = addresses ! k\<rparr>, True), w1))"
proof -
  let ?m = "map_of (rev (zip addresses indices))"
  let ?kc = "\<lparr>ledger = L, addrs = set addresses, addrToIdx = ?m\<rparr>"
  have "?m = pair_in_order addresses indices"
    by (simp add: pair_in_order_def fold_pairs)
  moreover have "ledgerKeychain_Get ?kc (addresses ! k) w1 =
      ((Some \<lparr>signer_ledger = L, idx = indices ! k, addr = addresses ! k\<rparr>, True), w1)"
    if "k < length addresses"
      and "\<forall>j. k < j \<and> j < length addresses \<longrightarrow> addresses ! j \<noteq> addresses ! k"
    for k w1
  proof -
    from that have "?m (addresses ! k) = Some (indices ! k)"
      using assms(3) by (intro pairing_last_wins) auto
    then show ?thesis
      by (simp add: ledgerKeychain_Get_def)
  qed
  ultimately show ?thesis
    using NewLedgerKeychain_Value [OF assms] by auto
qed

theorem collision_last_index_wins_witness:
  "\<exists>kc w'. NewLedgerKeychain mockLedger [0, 256] newMockLedger = (Value kc, w')
    \<and> ledgerKeychain_Get kc (0 # replicate 19 0) w' =
         ((Some \<lparr>signer_ledger = mockLedger, idx = 256, addr = 0 # replicate 19 0\<rparr>, True), w')"
proof -
  obtain kc w' where k: "NewLedgerKeychain mockLedger [0, 256] newMockLedger = (Value kc, w')"
    and g: "\<forall>k w1. k < length [0 # replicate 19 (0::8 word), 0 # replicate 19 0]
           \<and> (\<forall>j. k < j \<and> j < length [0 # replicate 19 (0::8 word), 0 # replicate 19 0] \<longrightarrow>
                 [0 # replicate 19 (0::8 word), 0 # replicate 19 0] ! j
                   \<noteq> [0 # replicate 19 0, 0 # replicate 19 0] ! k) \<longrightarrow>
          ledgerKeychain_Get kc ([0 # replicate 19 0, 0 # replicate 19 0] ! k) w1 =
            ((Some \<lparr>signer_ledger = mockLedger, idx = [0, 256] ! k,
                    addr = [0 # replicate 19 0, 0 # replicate 19 0] ! k\<rparr>, True), w1)"
    using collision_last_index_wins [OF _ mock_GetAddresses_0_256] by auto
  from g [rule_format, of 1 w'] k show ?thesis
    by auto
qed

text \<open>
  C3. For a keychain returned by the constructor, the set that \<open>Addresses\<close> returns is
  the domain of the map from address to index: every address held has exactly one
  entry and no address outside the set has one. Every signer that \<open>Get\<close> returns for
  an address carries an index of the input list at whose position the device returned
  that address.
\<close>

theorem keychain_invariant:
  assumes "fst (NewLedgerKeychain L indices w) = Value kc"
  shows "fst (ledgerKeychain_Addresses kc w1) = dom (addrToIdx kc)
    \<and> (\<forall>a \<in> fst (ledgerKeychain_Addresses kc w1). \<exists>!i. addrToIdx kc a = Some i)
    \<and> (\<forall>a. a \<notin> fst (ledgerKeychain_Addresses kc w1) \<longrightarrow> addrToIdx kc a = None)
    \<and> (\<forall>a s found w2. ledgerKeychain_Get kc a w1 = ((Some s, found), w2) \<longrightarrow>
          (\<exists>k < length indices.
              fst (fst (GetAddresses L indices (dev w))) ! k = a \<and> indices ! k = idx s))"
proof -
  from assms obtain addresses where ne: "indices \<noteq> []"
    and g: "fst (GetAddresses L indices (dev w)) = (addresses, None)"
    and len: "length addresses = length indices"
    and kc: "kc = \<lparr>ledger = L, addrs = set addresses,
                   addrToIdx = map_of (rev (zip addresses indices))\<rparr>"
    by (rule NewLedgerKeychain_ValueD)
  have d: "fst (ledgerKeychain_Addresses kc w1) = dom (addrToIdx kc)"
    using len by (simp add: kc ledgerKeychain_Addresses_def dom_pairing)
  have o: "\<exists>k < length indices.
      fst (fst (GetAddresses L indices (dev w))) ! k = a \<and> indices ! k = idx s"
    if "ledgerKeychain_Get kc a w1 = ((Some s, found), w2)" for a s found w2
  proof -
    from that obtain i where "map_of (rev (zip addresses indices)) a = Some i" "idx s = i"
      by (auto simp: kc ledgerKeychain_Get_def split: option.splits)
    with pairing_origin [of addresses indices a i] g show ?thesis
      by auto
  qed
  from d o show ?thesis
    by (auto simp: dom_def)
qed

theorem keychain_invariant_witness:
  "\<exists>kc. fst (NewLedgerKeychain mockLedger [0, 1, 2] newMockLedger) = Value kc
     \<and> fst (ledgerKeychain_Addresses kc newMockLedger) = dom (addrToIdx kc)
     \<and> addrToIdx kc (2 # replicate 19 0) = Some 2
     \<and> addrToIdx kc (3 # replicate 19 0) = None"
proof -
  obtain kc where k: "fst (NewLedgerKeychain mockLedger [0, 1, 2] newMockLedger) = Value kc"
    and m: "addrToIdx kc =
      map_of (rev (zip [0 # replicate 19 0, 1 # replicate 19 0, 2 # replicate 19 0] [0, 1, 2]))"
    using mock_keychain_012 by simp
  from keychain_invariant [OF k, of newMockLedger]
  have "fst (ledgerKeychain_Addresses kc newMockLedger) = dom (addrToIdx kc)"
    by blast
  moreover have "addrToIdx kc (2 # replicate 19 0) = Some 2"
    and "addrToIdx kc (3 # replicate 19 0) = None"
    by (simp_all add: m)
  ultimately show ?thesis
    using k by blast
qed

text \<open>
  C9. For a keychain returned by the constructor, the number of addresses that
  \<open>Addresses\<close> returns is the number of distinct addresses among those the device
  returned. It is at most the number of input indices, and it can be less: the test
  double gives the indices 0 and 256 the same address.
\<close>

theorem addresses_count:
  assumes "fst (NewLedgerKeychain L indices w) = Value kc"
  shows "card (fst (ledgerKeychain_Addresses kc w1)) =
      length (remdups (fst (fst (GetAddresses L indices (dev w)))))
    \<and> card (fst (ledgerKeychain_Addresses kc w1)) \<le> length indices
    \<and> (\<exists>is' kc'. fst (NewLedgerKeychain mockLedger is' newMockLedger) = Value kc'
          \<and> card (fst (ledgerKeychain_Addresses kc' newMockLedger)) < length is')"
proof -
  from assms obtain addresses where g: "fst (GetAddresses L indices (dev w)) = (addresses, None)"
    and len: "length addresses = length indices"
    and kc: "kc = \<lparr>ledger = L, addrs = set addresses,
                   addrToIdx = map_of (rev (zip addresses indices))\<rparr>"
    by (rule NewLedgerKeychain_ValueD)
  have "card (set addresses) \<le> length addresses"
    by (rule card_length)
  then have counted: "card (fst (ledgerKeychain_Addresses kc w1)) =
      length (remdups (fst (fst (GetAddresses L indices (dev w)))))
    \<and> card (fst (ledgerKeychain_Addresses kc w1)) \<le> length indices"
    using len by (simp add: kc g ledgerKeychain_Addresses_def length_remdups_card_conv)
  let ?kc = "\<lparr>ledger = mockLedger,
      addrs = set [0 # replicate 19 0, 0 # replicate 19 0],
      addrToIdx = map_of (rev (zip [0 # replicate 19 0, 0 # replicate 19 0] [0, 256]))\<rparr>"
  have "card (fst (ledgerKeychain_Addresses ?kc newMockLedger)) < length [0::uint32, 256]"
    by (simp add: ledgerKeychain_Addresses_def)
  with mock_keychain_0_256 have "\<exists>is' kc'.
      fst (NewLedgerKeychain mockLedger is' newMockLedger) = Value kc'
      \<and> card (fst (ledgerKeychain_Addresses kc' newMockLedger)) < length is'"
    by blast
  with counted show ?thesis
    by blast
qed

theorem addresses_count_witness:
  "\<exists>kc. fst (NewLedgerKeychain mockLedger [0, 256] newMockLedger) = Value kc
     \<and> card (fst (ledgerKeychain_Addresses kc newMockLedger)) = 1
     \<and> card (fst (ledgerKeychain_Addresses kc newMockLedger)) < length [0::uint32, 256]"
proof -
  obtain kc where k: "fst (NewLedgerKeychain mockLedger [0, 256] newMockLedger) = Value kc"
    using mock_keychain_0_256 by simp
  from addresses_count [OF k, of newMockLedger]
  have "card (fst (ledgerKeychain_Addresses kc newMockLedger)) = 1"
    by (simp add: mock_GetAddresses_0_256)
  with k show ?thesis
    by auto
qed

section \<open>Construction: the three failures\<close>

text \<open>
  C5. Construction with an empty index list returns the error
  \<open>ErrInvalidIndicesLength\<close> and no keychain; the world is the one it started in: the
  device state is untouched and no call on the device was made.
\<close>

theorem NewLedgerKeychain_empty:
  "NewLedgerKeychain L [] w = (Error ErrInvalidIndicesLength, w)"
  by (simp add: NewLedgerKeychain_def)

theorem NewLedgerKeychain_empty_witness:
  "NewLedgerKeychain mockLedger [] newMockLedger = (Error ErrInvalidIndicesLength, newMockLedger)
   \<and> calls newMockLedger = []"
  using NewLedgerKeychain_empty [where L = mockLedger and w = newMockLedger]
  by (simp add: newMockLedger_def)

text \<open>
  C6. For a non-empty index list, when the device's \<open>GetAddresses\<close> returns no error
  and a list of addresses whose length differs from the number of indices,
  construction returns the error \<open>ErrInvalidNumAddrsDerived\<close> and no keychain, after
  that one call on the device.
\<close>

theorem NewLedgerKeychain_wrong_count:
  assumes "indices \<noteq> []"
    and "fst (GetAddresses L indices (dev w)) = (addresses, None)"
    and "length addresses \<noteq> length indices"
  shows "NewLedgerKeychain L indices w =
    (Error ErrInvalidNumAddrsDerived,
     \<lparr>dev = snd (GetAddresses L indices (dev w)),
      calls = calls w @ [CallGetAddresses indices]\<rparr>)"
  using assms by (rule NewLedgerKeychain_count)

text \<open>The device returns 2 addresses for 3 requested indices.\<close>

theorem NewLedgerKeychain_wrong_count_witness:
  "NewLedgerKeychain (fixedLedger ([1 # replicate 19 0, 2 # replicate 19 0], None) ([], None))
       [0, 1, 2] \<lparr>dev = (), calls = []\<rparr> =
     (Error ErrInvalidNumAddrsDerived, \<lparr>dev = (), calls = [CallGetAddresses [0, 1, 2]]\<rparr>)"
  using NewLedgerKeychain_wrong_count
    [where indices = "[0, 1, 2]"
       and L = "fixedLedger ([1 # replicate 19 0, 2 # replicate 19 0], None) ([], None)"
       and w = "\<lparr>dev = (), calls = []\<rparr>"
       and addresses = "[1 # replicate 19 0, 2 # replicate 19 0]"]
  by (simp add: fixedLedger_def)

text \<open>
  C7. For a non-empty index list, when the device's \<open>GetAddresses\<close> returns an error,
  construction returns that same error and no keychain. Construction is atomic: its
  outcome is an error, or a keychain that holds every address the device returned, one
  for each index and each with an entry in the map; it is never anything else.
\<close>

theorem NewLedgerKeychain_device_fails:
  "(\<forall>addresses e. indices \<noteq> [] \<and> fst (GetAddresses L indices (dev w)) = (addresses, Some e)
      \<longrightarrow> NewLedgerKeychain L indices w =
            (Error e, \<lparr>dev = snd (GetAddresses L indices (dev w)),
                       calls = calls w @ [CallGetAddresses indices]\<rparr>))
   \<and> ((\<exists>e. fst (NewLedgerKeychain L indices w) = Error e)
      \<or> (\<exists>kc addresses. fst (NewLedgerKeychain L indices w) = Value kc
            \<and> fst (GetAddresses L indices (dev w)) = (addresses, None)
            \<and> length addresses = length indices
            \<and> addrs kc = set addresses \<and> dom (addrToIdx kc) = set addresses))"
proof (intro conjI allI impI)
  fix addresses e
  assume "indices \<noteq> [] \<and> fst (GetAddresses L indices (dev w)) = (addresses, Some e)"
  then show "NewLedgerKeychain L indices w =
      (Error e, \<lparr>dev = snd (GetAddresses L indices (dev w)),
                 calls = calls w @ [CallGetAddresses indices]\<rparr>)"
    by (simp add: NewLedgerKeychain_device_error)
next
  show "(\<exists>e. fst (NewLedgerKeychain L indices w) = Error e)
      \<or> (\<exists>kc addresses. fst (NewLedgerKeychain L indices w) = Value kc
            \<and> fst (GetAddresses L indices (dev w)) = (addresses, None)
            \<and> length addresses = length indices
            \<and> addrs kc = set addresses \<and> dom (addrToIdx kc) = set addresses)"
  proof (cases rule: NewLedgerKeychain_cases [where indices = indices and L = L and w = w])
    case empty
    then show ?thesis by simp
  next
    case (device addresses e)
    then show ?thesis by simp
  next
    case (count addresses)
    then show ?thesis by simp
  next
    case (built addresses)
    then show ?thesis by (simp add: dom_pairing)
  qed
qed

theorem NewLedgerKeychain_device_fails_witness:
  "NewLedgerKeychain (fixedLedger ([], Some (OtherError ''device disconnected'')) ([], None)) [0, 1]
       \<lparr>dev = (), calls = []\<rparr> =
     (Error (OtherError ''device disconnected''), \<lparr>dev = (), calls = [CallGetAddresses [0, 1]]\<rparr>)"
  using NewLedgerKeychain_device_fails
    [where indices = "[0, 1]"
       and L = "fixedLedger ([], Some (OtherError ''device disconnected'')) ([], None)"
       and w = "\<lparr>dev = (), calls = []\<rparr>"]
  by (simp add: fixedLedger_def)

text \<open>
  C10, as amended. Construction returns an error in exactly three cases: the index
  list is empty (\<open>ErrInvalidIndicesLength\<close>), the device's \<open>GetAddresses\<close> returned an
  error (that error), or it returned a wrong number of addresses
  (\<open>ErrInvalidNumAddrsDerived\<close>). The package itself never produces
  \<open>ErrInvalidNumAddrsToDerive\<close> or \<open>ErrInvalidNumSignatures\<close>: the constructor,
  \<open>Sign\<close> and \<open>SignHash\<close> return one of them only when the device call they forward
  returned that very error. \<open>Get\<close>, \<open>Addresses\<close> and \<open>Address\<close> return no error at
  all.
\<close>

theorem errors_of_the_package:
  "(\<forall>e. fst (NewLedgerKeychain L indices w) = Error e \<longleftrightarrow>
        indices = [] \<and> e = ErrInvalidIndicesLength
      \<or> indices \<noteq> [] \<and> snd (fst (GetAddresses L indices (dev w))) = Some e
      \<or> indices \<noteq> [] \<and> snd (fst (GetAddresses L indices (dev w))) = None
          \<and> length (fst (fst (GetAddresses L indices (dev w)))) \<noteq> length indices
          \<and> e = ErrInvalidNumAddrsDerived)
   \<and> (\<forall>e. e = ErrInvalidNumAddrsToDerive \<or> e = ErrInvalidNumSignatures \<longrightarrow>
        (fst (NewLedgerKeychain L indices w) = Error e \<longrightarrow>
           indices \<noteq> [] \<and> snd (fst (GetAddresses L indices (dev w))) = Some e)
      \<and> (snd (fst (ledgerSigner_Sign s b w)) = Some e \<longrightarrow>
           snd (fst (Sign (signer_ledger s) b (idx s) (dev w))) = Some e)
      \<and> (snd (fst (ledgerSigner_SignHash s b w)) = Some e \<longrightarrow>
           snd (fst (SignHash (signer_ledger s) b (idx s) (dev w))) = Some e))"
proof -
  have three: "fst (NewLedgerKeychain L indices w) = Error e \<longleftrightarrow>
        indices = [] \<and> e = ErrInvalidIndicesLength
      \<or> indices \<noteq> [] \<and> snd (fst (GetAddresses L indices (dev w))) = Some e
      \<or> indices \<noteq> [] \<and> snd (fst (GetAddresses L indices (dev w))) = None
          \<and> length (fst (fst (GetAddresses L indices (dev w)))) \<noteq> length indices
          \<and> e = ErrInvalidNumAddrsDerived" for e
    by (cases rule: NewLedgerKeychain_cases [where indices = indices and L = L and w = w]) auto
  have sign: "fst (ledgerSigner_Sign s b w) = fst (Sign (signer_ledger s) b (idx s) (dev w))"
    by (simp add: ledgerSigner_Sign_def call_Sign_def split: prod.splits)
  have hash: "fst (ledgerSigner_SignHash s b w) = fst (SignHash (signer_ledger s) b (idx s) (dev w))"
    by (simp add: ledgerSigner_SignHash_def call_SignHash_def split: prod.splits)
  from three show ?thesis
    by (auto simp: sign hash)
qed

theorem errors_of_the_package_witness:
  "fst (NewLedgerKeychain (fixedLedger ([], Some ErrInvalidNumAddrsToDerive) ([], None)) [7]
          \<lparr>dev = (), calls = []\<rparr>) = Error ErrInvalidNumAddrsToDerive
   \<and> snd (fst (GetAddresses (fixedLedger ([], Some ErrInvalidNumAddrsToDerive) ([], None)) [7] ())) =
       Some ErrInvalidNumAddrsToDerive"
  using errors_of_the_package
    [where L = "fixedLedger ([], Some ErrInvalidNumAddrsToDerive) ([], None)" and indices = "[7]"
       and w = "\<lparr>dev = (), calls = []\<rparr>"]
  by (simp add: fixedLedger_def)

text \<open>
  That no operation ever returns \<open>ErrInvalidNumSignatures\<close> fails for a device that
  answers with that error: the constructor hands it on unchanged, and so does \<open>Sign\<close>
  of a signer that \<open>Get\<close> returned.
\<close>

theorem unused_errors_counterexample:
  "fst (NewLedgerKeychain (fixedLedger ([], Some ErrInvalidNumSignatures) ([], None)) [0]
          \<lparr>dev = (), calls = []\<rparr>) = Error ErrInvalidNumSignatures
   \<and> fst (NewLedgerKeychain
          (fixedLedger ([replicate 20 0], None) ([], Some ErrInvalidNumSignatures)) [0]
          \<lparr>dev = (), calls = []\<rparr>) =
       Value \<lparr>ledger = fixedLedger ([replicate 20 0], None) ([], Some ErrInvalidNumSignatures),
              addrs = {replicate 20 0}, addrToIdx = [replicate 20 0 \<mapsto> 0]\<rparr>
   \<and> fst (ledgerKeychain_Get
          \<lparr>ledger = fixedLedger ([replicate 20 0], None) ([], Some ErrInvalidNumSignatures),
            addrs = {replicate 20 0}, addrToIdx = [replicate 20 0 \<mapsto> 0]\<rparr>
          (replicate 20 0) \<lparr>dev = (), calls = []\<rparr>) =
       (Some \<lparr>signer_ledger =
                 fixedLedger ([replicate 20 0], None) ([], Some ErrInvalidNumSignatures),
               idx = 0, addr = replicate 20 0\<rparr>, True)
   \<and> snd (fst (ledgerSigner_Sign
          \<lparr>signer_ledger =
             fixedLedger ([replicate 20 0], None) ([], Some ErrInvalidNumSignatures),
           idx = 0, addr = replicate 20 0\<rparr>
          [] \<lparr>dev = (), calls = []\<rparr>)) = Some ErrInvalidNumSignatures"
  by (simp add: NewLedgerKeychain_def call_GetAddresses_def ledgerKeychain_Get_def
      ledgerSigner_Sign_def call_Sign_def fixedLedger_def)

section \<open>Lookup\<close>

text \<open>
  C8. \<open>Get\<close> on an address that has no entry in the keychain's map returns
  \<open>(nil, false)\<close>, with no error (its result has none); the world is the one it
  started in, so the device was not called, and the keychain is not written to. For a
  keychain returned by the constructor, the addresses without an entry include every
  address that the device did not return at construction.
\<close>

theorem get_unknown_address:
  "(addrToIdx kc a = None \<longrightarrow> ledgerKeychain_Get kc a w = ((None, False), w))
   \<and> (fst (NewLedgerKeychain L indices w0) = Value kc'
        \<and> a \<notin> set (fst (fst (GetAddresses L indices (dev w0)))) \<longrightarrow>
      ledgerKeychain_Get kc' a w = ((None, False), w))"
proof (intro conjI impI)
  assume "addrToIdx kc a = None"
  then show "ledgerKeychain_Get kc a w = ((None, False), w)"
    by (simp add: ledgerKeychain_Get_def)
next
  assume h: "fst (NewLedgerKeychain L indices w0) = Value kc'
      \<and> a \<notin> set (fst (fst (GetAddresses L indices (dev w0))))"
  then obtain addresses where g: "fst (GetAddresses L indices (dev w0)) = (addresses, None)"
    and len: "length addresses = length indices"
    and kc: "kc' = \<lparr>ledger = L, addrs = set addresses,
                    addrToIdx = map_of (rev (zip addresses indices))\<rparr>"
    by (auto elim: NewLedgerKeychain_ValueD)
  from h g have "a \<notin> dom (map_of (rev (zip addresses indices)))"
    using len by (simp add: dom_pairing)
  then show "ledgerKeychain_Get kc' a w = ((None, False), w)"
    by (auto simp: kc ledgerKeychain_Get_def split: option.splits)
qed

theorem get_unknown_address_witness:
  "\<exists>kc. fst (NewLedgerKeychain mockLedger [0, 1] newMockLedger) = Value kc
     \<and> ledgerKeychain_Get kc (99 # replicate 19 0) newMockLedger = ((None, False), newMockLedger)"
proof -
  note a = mock_GetAddresses_01
  from NewLedgerKeychain_Value [OF _ a]
  obtain kc where k: "fst (NewLedgerKeychain mockLedger [0, 1] newMockLedger) = Value kc"
    by simp
  from get_unknown_address
    [where L = mockLedger and indices = "[0, 1]" and ?w0.0 = newMockLedger and kc' = kc
       and a = "99 # replicate 19 0" and w = newMockLedger] k
  have "ledgerKeychain_Get kc (99 # replicate 19 0) newMockLedger = ((None, False), newMockLedger)"
    by (simp add: a)
  with k show ?thesis
    by blast
qed

section \<open>Signing\<close>

text \<open>
  C4. For a signer that \<open>Get\<close> returned for an address, and any bytes, \<open>Sign\<close> and
  \<open>SignHash\<close> make exactly one call on the keychain's device, \<open>Sign\<close> and \<open>SignHash\<close>
  respectively, with those bytes and the index the map holds for the address; they
  return the device's pair of result and error as it is, and leave the device in the
  state that call left it in.
\<close>

theorem signer_forwards_to_device:
  assumes "ledgerKeychain_Get kc a w0 = ((Some s, found), w0')"
  shows "addrToIdx kc a = Some (idx s) \<and> signer_ledger s = ledger kc
    \<and> ledgerSigner_Sign s b w =
        (fst (Sign (ledger kc) b (idx s) (dev w)),
         \<lparr>dev = snd (Sign (ledger kc) b (idx s) (dev w)),
          calls = calls w @ [CallSign b (idx s)]\<rparr>)
    \<and> ledgerSigner_SignHash s b w =
        (fst (SignHash (ledger kc) b (idx s) (dev w)),
         \<lparr>dev = snd (SignHash (ledger kc) b (idx s) (dev w)),
          calls = calls w @ [CallSignHash b (idx s)]\<rparr>)"
proof -
  from assms obtain i where i: "addrToIdx kc a = Some i"
    and s: "s = \<lparr>signer_ledger = ledger kc, idx = i, addr = a\<rparr>"
    by (auto simp: ledgerKeychain_Get_def split: option.splits)
  show ?thesis
    by (simp add: i s ledgerSigner_Sign_def ledgerSigner_SignHash_def call_Sign_def
        call_SignHash_def split: prod.splits)
qed

theorem signer_forwards_to_device_witness:
  "\<exists>kc s. fst (NewLedgerKeychain mockLedger [0, 1, 2] newMockLedger) = Value kc
     \<and> ledgerKeychain_Get kc (1 # replicate 19 0) newMockLedger = ((Some s, True), newMockLedger)
     \<and> idx s = 1
     \<and> ledgerSigner_Sign s (map (of_nat \<circ> of_char) ''test-data'') newMockLedger =
          ((map (of_nat \<circ> of_char) ''mock-signature'', None),
           \<lparr>dev = Map.empty, calls = [CallSign (map (of_nat \<circ> of_char) ''test-data'') 1]\<rparr>)
     \<and> ledgerSigner_SignHash s (map (of_nat \<circ> of_char) ''test-hash'') newMockLedger =
          ((map (of_nat \<circ> of_char) ''mock-hash-signature'', None),
           \<lparr>dev = Map.empty, calls = [CallSignHash (map (of_nat \<circ> of_char) ''test-hash'') 1]\<rparr>)"
proof -
  obtain kc where k: "fst (NewLedgerKeychain mockLedger [0, 1, 2] newMockLedger) = Value kc"
    and l: "ledger kc = mockLedger"
    and m: "addrToIdx kc =
      map_of (rev (zip [0 # replicate 19 0, 1 # replicate 19 0, 2 # replicate 19 0] [0, 1, 2]))"
    using mock_keychain_012 by simp
  let ?s = "\<lparr>signer_ledger = mockLedger, idx = 1, addr = 1 # replicate 19 0\<rparr>"
  have g: "ledgerKeychain_Get kc (1 # replicate 19 0) newMockLedger = ((Some ?s, True), newMockLedger)"
    by (simp add: ledgerKeychain_Get_def l m)
  from signer_forwards_to_device [OF g, of _ newMockLedger]
  have "ledgerSigner_Sign ?s (map (of_nat \<circ> of_char) ''test-data'') newMockLedger =
          ((map (of_nat \<circ> of_char) ''mock-signature'', None),
           \<lparr>dev = Map.empty, calls = [CallSign (map (of_nat \<circ> of_char) ''test-data'') 1]\<rparr>)"
    and "ledgerSigner_SignHash ?s (map (of_nat \<circ> of_char) ''test-hash'') newMockLedger =
          ((map (of_nat \<circ> of_char) ''mock-hash-signature'', None),
           \<lparr>dev = Map.empty, calls = [CallSignHash (map (of_nat \<circ> of_char) ''test-hash'') 1]\<rparr>)"
    by (simp_all add: l mockLedger_def newMockLedger_def)
  with k g show ?thesis
    by (intro exI [of _ kc] exI [of _ ?s]) simp
qed

end
